theory Spec2Isabelle
  imports Complex_Main
begin

section \<open>Numbers, timestamps and array slices\<close>

text \<open>
  The stores of the simulator (\<^verbatim>\<open>stores/trades.js\<close>, \<^verbatim>\<open>stores/market.js\<close>,
  \<^verbatim>\<open>stores/traders.js\<close>) and the tick loop of \<^verbatim>\<open>TradingDashboard.vue\<close> are embedded as
  functions on explicit states.

  A JavaScript number is modelled as a rational: \<open>+\<close>, \<open>-\<close>, \<open>*\<close> and \<open>/\<close> are exact, and
  there is no NaN, no infinity and no binary rounding. Counts and timestamps
  (\<^verbatim>\<open>Date.now()\<close>, milliseconds) are natural numbers.

  \<^verbatim>\<open>Number(x.toFixed(f))\<close> is \<open>toFixed f x\<close>: \<^verbatim>\<open>toFixed\<close> strips the sign, takes the integer
  \<open>n\<close> with \<open>n / 10^f\<close> nearest to \<open>\<bar>x\<bar>\<close>, the larger one at a tie, and puts the sign back;
  that is rounding to \<open>f\<close> decimals, half away from zero.
\<close>

type_synonym number = rat

definition toFixed :: "nat \<Rightarrow> number \<Rightarrow> number" where
  "toFixed f x =
     (if x < 0 then - (of_int \<lfloor>- x * 10 ^ f + 1 / 2\<rfloor> / 10 ^ f)
      else of_int \<lfloor>x * 10 ^ f + 1 / 2\<rfloor> / 10 ^ f)"

text \<open>\<^verbatim>\<open>xs.slice(-n)\<close> for \<open>n > 0\<close>: the last \<open>n\<close> elements, all of them when there are fewer.\<close>

definition slice_last :: "nat \<Rightarrow> 'a list \<Rightarrow> 'a list" where
  "slice_last n xs = drop (length xs - n) xs"

text \<open>\<^verbatim>\<open>xs.findIndex(p)\<close>: the first index whose element satisfies \<open>p\<close>; \<open>None\<close> is \<^verbatim>\<open>-1\<close>.\<close>

fun findIndex :: "('a \<Rightarrow> bool) \<Rightarrow> 'a list \<Rightarrow> nat option" where
  "findIndex p [] = None"
| "findIndex p (x # xs) = (if p x then Some 0 else map_option Suc (findIndex p xs))"

text \<open>\<^verbatim>\<open>xs.splice(i, 1)\<close>: the array without its element at index \<open>i\<close>.\<close>

definition splice1 :: "nat \<Rightarrow> 'a list \<Rightarrow> 'a list" where
  "splice1 i xs = take i xs @ drop (Suc i) xs"

text \<open>The decimal digits of a timestamp, as a template literal prints them.\<close>

fun digits :: "nat \<Rightarrow> string" where
  "digits n = (if n < 10 then [char_of (48 + n)] else digits (n div 10) @ [char_of (48 + n mod 10)])"

declare digits.simps [simp del]

section \<open>The position ledger (trades store)\<close>

datatype direction = Long | Short

datatype trade_status = Open | Closed

text \<open>
  A trade object. \<^verbatim>\<open>exitPrice\<close>, \<^verbatim>\<open>pnl\<close> and \<^verbatim>\<open>closeTimestamp\<close> are absent (\<open>None\<close>) until
  the trade is closed. The fields \<^verbatim>\<open>id\<close>, \<^verbatim>\<open>type\<close> and \<^verbatim>\<open>size\<close> carry a prefix because the
  plain names are taken in HOL.
\<close>

record trade =
  trade_id :: string
  aiTrader :: string
  asset :: string
  trade_type :: direction
  entryPrice :: number
  trade_size :: number
  timestamp :: nat
  status :: trade_status
  analysis :: string
  stopLoss :: number
  takeProfit :: number
  exitPrice :: "number option"
  pnl :: "number option"
  closeTimestamp :: "nat option"

text \<open>The argument object of \<^verbatim>\<open>createTrade\<close>.\<close>

record payload =
  p_traderId :: string
  p_asset :: string
  p_type :: direction
  p_entryPrice :: number
  p_size :: number
  p_analysis :: string
  p_timestamp :: nat

record analysis_note =
  note_id :: string
  note_aiTrader :: string
  summary :: string
  note_timestamp :: nat

record trades_state =
  openPositions :: "trade list"
  history :: "trade list"
  analyses :: "analysis_note list"

definition trades_init :: trades_state where
  "trades_init = \<lparr>openPositions = [], history = [], analyses = []\<rparr>"

definition buildTrade :: "payload \<Rightarrow> trade" where
  "buildTrade p =
     \<lparr>trade_id = p_traderId p @ ''-'' @ digits (p_timestamp p),
      aiTrader = p_traderId p,
      asset = p_asset p,
      trade_type = p_type p,
      entryPrice = p_entryPrice p,
      trade_size = p_size p,
      timestamp = p_timestamp p,
      status = Open,
      analysis = p_analysis p,
      stopLoss = toFixed 2 (p_entryPrice p * (if p_type p = Long then 97 / 100 else 103 / 100)),
      takeProfit = toFixed 2 (p_entryPrice p * (if p_type p = Long then 103 / 100 else 97 / 100)),
      exitPrice = None,
      pnl = None,
      closeTimestamp = None\<rparr>"

text \<open>The getter \<^verbatim>\<open>lastAnalyses\<close>: \<^verbatim>\<open>state.analyses.slice(-8).reverse()\<close>.\<close>

definition lastAnalyses :: "trades_state \<Rightarrow> analysis_note list" where
  "lastAnalyses st = rev (slice_last 8 (analyses st))"

text \<open>\<^verbatim>\<open>createTrade\<close> returns the new trade; the store after the call is the second component.\<close>

definition createTrade :: "payload \<Rightarrow> trades_state \<Rightarrow> trade \<times> trades_state" where
  "createTrade p st =
     (let trade = buildTrade p
      in (trade,
          st\<lparr>openPositions := openPositions st @ [trade],
             analyses := analyses st @
               [\<lparr>note_id = trade_id trade, note_aiTrader = p_traderId p,
                 summary = p_analysis p, note_timestamp = p_timestamp p\<rparr>]\<rparr>))"

text \<open>The realized profit of \<^verbatim>\<open>closeTrade\<close>, rounded to two decimals.\<close>

definition closePnl :: "trade \<Rightarrow> number \<Rightarrow> number" where
  "closePnl trade exit =
     toFixed 2 (if trade_type trade = Long then (exit - entryPrice trade) * trade_size trade
                else (entryPrice trade - exit) * trade_size trade)"

text \<open>\<^verbatim>\<open>closeTrade\<close> returns \<open>None\<close> for \<^verbatim>\<open>null\<close>, and the closed trade otherwise.\<close>

definition closeTrade :: "string \<Rightarrow> number \<Rightarrow> nat \<Rightarrow> trades_state \<Rightarrow> trade option \<times> trades_state" where
  "closeTrade tradeId exit ts st =
     (case findIndex (\<lambda>trade. trade_id trade = tradeId) (openPositions st) of
        None \<Rightarrow> (None, st)
      | Some index \<Rightarrow>
          (let trade = openPositions st ! index;
               closedTrade = trade\<lparr>status := Closed,
                                   exitPrice := Some (toFixed 2 exit),
                                   pnl := Some (closePnl trade exit),
                                   closeTimestamp := Some ts\<rparr>
           in (Some closedTrade,
               st\<lparr>openPositions := splice1 index (openPositions st),
                  history := take 200 (closedTrade # history st)\<rparr>)))"

section \<open>The random source\<close>

text \<open>
  \<^verbatim>\<open>Math.random()\<close> is an injected sequence of draws: the state of the source is the
  sequence still to come, and a draw returns its head and leaves its tail. The language
  promises every draw in \<open>[0, 1)\<close>, which is \<open>unit_draws\<close>.
\<close>

type_synonym rng = "nat \<Rightarrow> number"

definition random :: "rng \<Rightarrow> number \<times> rng" where
  "random g = (g 0, \<lambda>n. g (Suc n))"

definition unit_draws :: "rng \<Rightarrow> bool" where
  "unit_draws g = (\<forall>n. 0 \<le> g n \<and> g n < 1)"

section \<open>The price generator (market store)\<close>

record price_point =
  pp_time :: nat
  pp_price :: number

record market_asset =
  symbol :: string
  name :: string
  price :: number
  asset_history :: "price_point list"

record market_state =
  assets :: "market_asset list"
  tick :: nat

definition ASSETS :: "(string \<times> string \<times> number) list" where
  "ASSETS = [(''BTC'', ''Bitcoin'', 31500), (''ETH'', ''Ethereum'', 2200),
             (''AAPL'', ''Apple'', 189), (''TSLA'', ''Tesla'', 172)]"

text \<open>The initial state of the store; \<open>now\<close> is \<^verbatim>\<open>Date.now()\<close> at creation.\<close>

definition market_init :: "nat \<Rightarrow> market_state" where
  "market_init now =
     \<lparr>assets = map (\<lambda>(s, n, p). \<lparr>symbol = s, name = n, price = p,
                                  asset_history = [\<lparr>pp_time = now, pp_price = p\<rparr>]\<rparr>) ASSETS,
      tick = 0\<rparr>"

text \<open>
  \<^verbatim>\<open>evolvePrice\<close> draws three times, and a fourth time when the third draw is below 0.05,
  in the order of the source.
\<close>

definition evolvePrice :: "number \<Rightarrow> rng \<Rightarrow> number \<times> rng" where
  "evolvePrice p g =
     (let (r1, g1) = random g;
          drift = (r1 - 1 / 2) * (2 / 100);
          (r2, g2) = random g1;
          volatility = r2 * (15 / 1000);
          (r3, g3) = random g2;
          (shock, g4) = (if r3 < 5 / 100
                         then (let (r4, g') = random g3 in ((r4 - 1 / 2) * (12 / 100), g'))
                         else (0, g3));
          next = p * (1 + drift + volatility + shock)
      in (max next (max (p * (1 / 2)) 5), g4))"

text \<open>The body of the \<^verbatim>\<open>map\<close> of \<^verbatim>\<open>generateNextTick\<close>, for one asset.\<close>

definition tickAsset :: "nat \<Rightarrow> market_asset \<Rightarrow> rng \<Rightarrow> market_asset \<times> rng" where
  "tickAsset ts a g =
     (let (p, g') = evolvePrice (price a) g;
          nextPrice = toFixed 2 p;
          h = slice_last 120 (asset_history a) @ [\<lparr>pp_time = ts, pp_price = nextPrice\<rparr>]
      in (a\<lparr>price := nextPrice, asset_history := h\<rparr>, g'))"

fun tickAssets :: "nat \<Rightarrow> market_asset list \<Rightarrow> rng \<Rightarrow> market_asset list \<times> rng" where
  "tickAssets ts [] g = ([], g)"
| "tickAssets ts (a # as) g =
     (let (a', g1) = tickAsset ts a g;
          (as', g2) = tickAssets ts as g1
      in (a' # as', g2))"

text \<open>
  \<^verbatim>\<open>generateNextTick\<close>; \<open>ts\<close> is its \<^verbatim>\<open>Date.now()\<close>. The returned snapshot is the
  timestamp with the symbol, name and price of every asset.
\<close>

definition generateNextTick ::
  "nat \<Rightarrow> market_state \<Rightarrow> rng \<Rightarrow> (nat \<times> (string \<times> string \<times> number) list) \<times> market_state \<times> rng" where
  "generateNextTick ts m g =
     (let (as', g') = tickAssets ts (assets m) g;
          m' = m\<lparr>assets := as', tick := tick m + 1\<rparr>
      in ((ts, map (\<lambda>a. (symbol a, name a, price a)) as'), m', g'))"

section \<open>The agent registry (traders store)\<close>

datatype risk = Alta | Media | Baja | Variable

datatype style = Tecnico | Fundamental | Mixta | Cuantitativa

record balance_point =
  bp_time :: nat
  bp_balance :: number

record trader_stats =
  bestTrade :: "trade option"
  worstTrade :: "trade option"
  winRate :: number
  totalTrades :: nat
  wins :: nat
  maxDrawdown :: number
  peakBalance :: number

text \<open>
  A trader object. The display fields \<^verbatim>\<open>color\<close> and \<^verbatim>\<open>avatar\<close> play no part in the
  engine and are left out.
\<close>

record trader =
  trader_id :: string
  trader_name :: string
  riskTolerance :: risk
  preferredAssets :: "string list"
  analysisStyle :: style
  balance :: number
  startOfDayBalance :: number
  balanceHistory :: "balance_point list"
  lastAnalysis :: string
  stats :: trader_stats

text \<open>
  The object \<^verbatim>\<open>traders\<close>, keyed by trader id, is an association list in insertion order
  (the order of \<^verbatim>\<open>Object.values\<close>); \<^verbatim>\<open>this.traders[traderId]\<close> is \<open>map_of\<close>, over the
  object's own keys.
\<close>

type_synonym registry = "(string \<times> trader) list"

definition BASE_BALANCE :: number where
  "BASE_BALANCE = 10000"

definition strategies :: "(string \<times> string \<times> risk \<times> string list \<times> style) list" where
  "strategies =
     [(''grok'', ''Grok'', Alta, [''BTC'', ''ETH''], Tecnico),
      (''claude'', ''Claude'', Media, [''AAPL'', ''TSLA'', ''ETH''], Fundamental),
      (''chatgpt'', ''ChatGPT'', Baja, [''AAPL'', ''TSLA''], Mixta),
      (''gemini'', ''Gemini'', Variable, [''BTC'', ''ETH'', ''TSLA''], Cuantitativa)]"

definition stats_init :: trader_stats where
  "stats_init = \<lparr>bestTrade = None, worstTrade = None, winRate = 0, totalTrades = 0, wins = 0,
                  maxDrawdown = 0, peakBalance = BASE_BALANCE\<rparr>"

definition trader_init :: "nat \<Rightarrow> string \<times> string \<times> risk \<times> string list \<times> style \<Rightarrow> trader" where
  "trader_init now = (\<lambda>(i, n, r, pa, st).
     \<lparr>trader_id = i, trader_name = n, riskTolerance = r, preferredAssets = pa,
      analysisStyle = st, balance = BASE_BALANCE, startOfDayBalance = BASE_BALANCE,
      balanceHistory = [\<lparr>bp_time = now, bp_balance = BASE_BALANCE\<rparr>],
      lastAnalysis = ''Inicializando estrategia...'', stats = stats_init\<rparr>)"

definition traders_init :: "nat \<Rightarrow> registry" where
  "traders_init now = map (\<lambda>s. (fst s, trader_init now s)) strategies"

definition traderList :: "registry \<Rightarrow> trader list" where
  "traderList reg = map snd reg"

text \<open>Writing a mutated trader object back under its key, in place.\<close>

fun store :: "string \<Rightarrow> trader \<Rightarrow> registry \<Rightarrow> registry" where
  "store k t [] = []"
| "store k t ((k', t') # reg) = (if k' = k then (k', t) # reg else (k', t') # store k t reg)"

text \<open>
  \<^verbatim>\<open>updateBalance(traderId, delta, meta)\<close>: \<open>meta_time\<close> is \<^verbatim>\<open>meta.time\<close> and \<open>now\<close> the
  \<^verbatim>\<open>Date.now()\<close> that stands in when it is absent.
\<close>

definition updateBalance_trader :: "number \<Rightarrow> nat \<Rightarrow> trader \<Rightarrow> trader" where
  "updateBalance_trader delta t trader =
     (let b = toFixed 2 (balance trader + delta);
          h = slice_last 240 (balanceHistory trader @ [\<lparr>bp_time = t, bp_balance = b\<rparr>]);
          peak = max (peakBalance (stats trader)) b;
          drawdown = peak - b;
          mdd = max (maxDrawdown (stats trader)) (toFixed 2 drawdown)
      in trader\<lparr>balance := b, balanceHistory := h,
                stats := (stats trader)\<lparr>peakBalance := peak, maxDrawdown := mdd\<rparr>\<rparr>)"

definition updateBalance :: "string \<Rightarrow> number \<Rightarrow> nat option \<Rightarrow> nat \<Rightarrow> registry \<Rightarrow> registry" where
  "updateBalance traderId delta meta_time now reg =
     (case map_of reg traderId of
        None \<Rightarrow> reg
      | Some trader \<Rightarrow>
          store traderId
            (updateBalance_trader delta (case meta_time of Some t \<Rightarrow> t | None \<Rightarrow> now) trader) reg)"

text \<open>
  \<^verbatim>\<open>(a.pnl ?? -Infinity) > (b.pnl ?? -Infinity)\<close> and
  \<^verbatim>\<open>(a.pnl ?? Infinity) < (b.pnl ?? Infinity)\<close> on optional profits.
\<close>

fun pnl_above :: "number option \<Rightarrow> number option \<Rightarrow> bool" where
  "pnl_above None _ = False"
| "pnl_above (Some x) None = True"
| "pnl_above (Some x) (Some y) = (x > y)"

fun pnl_below :: "number option \<Rightarrow> number option \<Rightarrow> bool" where
  "pnl_below None _ = False"
| "pnl_below (Some x) None = True"
| "pnl_below (Some x) (Some y) = (x < y)"

definition registerTrade_stats :: "trade \<Rightarrow> trader_stats \<Rightarrow> trader_stats" where
  "registerTrade_stats tr s =
     (let total = totalTrades s + 1;
          w = (if (case pnl tr of None \<Rightarrow> False | Some x \<Rightarrow> x \<noteq> 0 \<and> x > 0)
               then wins s + 1 else wins s);
          rate = (if total \<noteq> 0 then toFixed 1 (of_nat w / of_nat total * 100) else 0);
          best = (case bestTrade s of
                    None \<Rightarrow> Some tr
                  | Some b \<Rightarrow> if pnl_above (pnl tr) (pnl b) then Some tr else Some b);
          worst = (case worstTrade s of
                     None \<Rightarrow> Some tr
                   | Some b \<Rightarrow> if pnl_below (pnl tr) (pnl b) then Some tr else Some b)
      in s\<lparr>totalTrades := total, wins := w, winRate := rate, bestTrade := best,
            worstTrade := worst\<rparr>)"

definition registerTrade :: "string \<Rightarrow> trade \<Rightarrow> registry \<Rightarrow> registry" where
  "registerTrade traderId tr reg =
     (case map_of reg traderId of
        None \<Rightarrow> reg
      | Some trader \<Rightarrow>
          store traderId (trader\<lparr>stats := registerTrade_stats tr (stats trader)\<rparr>) reg)"

definition setAnalysis :: "string \<Rightarrow> string \<Rightarrow> registry \<Rightarrow> registry" where
  "setAnalysis traderId text reg =
     (case map_of reg traderId of
        None \<Rightarrow> reg
      | Some trader \<Rightarrow> store traderId (trader\<lparr>lastAnalysis := text\<rparr>) reg)"

section \<open>The tick orchestrator (TradingDashboard)\<close>

text \<open>
  The three stores and the random source together. A function of the orchestrator that
  can raise returns an \<open>outcome\<close>: the state it returned with, or the state in which the
  \<^verbatim>\<open>TypeError\<close> left the stores.
\<close>

record world =
  marketStore :: market_state
  tradersStore :: registry
  tradesStore :: trades_state
  source :: rng

datatype 'a outcome = Returned 'a | Threw 'a

fun state_of :: "'a outcome \<Rightarrow> 'a" where
  "state_of (Returned w) = w"
| "state_of (Threw w) = w"

definition world_init :: "nat \<Rightarrow> nat \<Rightarrow> rng \<Rightarrow> world" where
  "world_init tm tt g =
     \<lparr>marketStore = market_init tm, tradersStore = traders_init tt, tradesStore = trades_init,
      source = g\<rparr>"

text \<open>The computed \<^verbatim>\<open>assetPriceMap\<close>: a later asset of the same symbol wins.\<close>

definition assetPriceMap :: "market_asset list \<Rightarrow> string \<rightharpoonup> market_asset" where
  "assetPriceMap as = fold (\<lambda>a acc. acc(symbol a \<mapsto> a)) as Map.empty"

definition riskSizeMap :: "risk \<rightharpoonup> number" where
  "riskSizeMap r = (case r of Alta \<Rightarrow> Some (18 / 10) | Media \<Rightarrow> Some (12 / 10)
                    | Baja \<Rightarrow> Some (8 / 10) | Variable \<Rightarrow> Some (15 / 10))"

text \<open>
  \<^verbatim>\<open>candidates[Math.floor(Math.random() * candidates.length)]\<close> is \<^verbatim>\<open>undefined\<close>
  (\<open>None\<close>) when the index is outside the array, as on an empty asset list.
\<close>

definition selectAsset :: "trader \<Rightarrow> market_asset list \<Rightarrow> rng \<Rightarrow> market_asset option \<times> rng" where
  "selectAsset trader as g =
     (let pool = filter (\<lambda>a. List.member (preferredAssets trader) (symbol a)) as;
          candidates = (if length pool \<noteq> 0 then pool else as);
          (r, g') = random g;
          i = \<lfloor>r * of_nat (length candidates)\<rfloor>
      in (if 0 \<le> i \<and> nat i < length candidates then Some (candidates ! nat i) else None, g'))"

text \<open>
  Printing numbers. Every number printed by the orchestrator is a price or a profit with at
  most two decimals: \<open>cents\<close> is its absolute value in hundredths, \<open>toFixedString\<close> is
  \<^verbatim>\<open>x.toFixed(2)\<close> and \<open>numberString\<close> is the template literal's shortest decimal form.
\<close>

definition cents :: "number \<Rightarrow> nat" where
  "cents x = nat \<lfloor>\<bar>x\<bar> * 100 + 1 / 2\<rfloor>"

definition toFixedString :: "number \<Rightarrow> string" where
  "toFixedString x =
     (if x < 0 then ''-'' else []) @ digits (cents x div 100) @ ''.'' @
     [char_of (48 + cents x mod 100 div 10), char_of (48 + cents x mod 10)]"

definition numberString :: "number \<Rightarrow> string" where
  "numberString x =
     (if x < 0 \<and> cents x \<noteq> 0 then ''-'' else []) @ digits (cents x div 100) @
     (if cents x mod 100 = 0 then []
      else if cents x mod 10 = 0 then ''.'' @ [char_of (48 + cents x mod 100 div 10)]
      else ''.'' @ [char_of (48 + cents x mod 100 div 10), char_of (48 + cents x mod 10)])"

text \<open>The phrases of \<^verbatim>\<open>buildAnalysis\<close>, with their accented letters written plain.\<close>

definition rationale :: "style \<Rightarrow> string" where
  "rationale s = (case s of
       Tecnico \<Rightarrow> ''ruptura de media movil y momentum positivo''
     | Fundamental \<Rightarrow> ''noticias macro favorables y solidos fundamentales''
     | Mixta \<Rightarrow> ''confluencia de indicadores tecnicos y sentimiento del mercado''
     | Cuantitativa \<Rightarrow> ''senal estadistica con alta probabilidad'')"

definition buildAnalysis :: "trader \<Rightarrow> market_asset \<Rightarrow> direction \<Rightarrow> number \<Rightarrow> string" where
  "buildAnalysis trader a ty p =
     (let sentiment = (if ty = Long then ''sesgo alcista'' else ''sesgo bajista'')
      in trader_name trader @ '' detecta '' @ sentiment @ '' en '' @ symbol a @ '' a '' @
         numberString p @ ''. Basado en '' @ rationale (analysisStyle trader) @ ''.'')"

text \<open>
  \<^verbatim>\<open>maybeOpenTrade\<close>. The draws are made in the order of the source; the read of
  \<^verbatim>\<open>asset.price\<close> on an \<^verbatim>\<open>undefined\<close> asset raises after them.
\<close>

definition maybeOpenTrade :: "trader \<Rightarrow> nat \<Rightarrow> world \<Rightarrow> world outcome" where
  "maybeOpenTrade trader ts w =
     (let active = filter (\<lambda>trade. aiTrader trade = trader_id trader) (openPositions (tradesStore w))
      in if length active \<ge> 3 then Returned w
         else
           (let (r, g1) = random (source w);
                shouldTrade = (r < 4 / 10)
            in if \<not> shouldTrade then Returned (w\<lparr>source := g1\<rparr>)
               else
                 (let (sel, g2) = selectAsset trader (assets (marketStore w)) g1;
                      (r2, g3) = random g2;
                      sz = toFixed 2 ((case riskSizeMap (riskTolerance trader) of
                                         Some b \<Rightarrow> b | None \<Rightarrow> 1) * (r2 * (6 / 10) + 4 / 10));
                      (r3, g4) = random g3;
                      ty = (if r3 > 1 / 2 then Long else Short)
                  in case sel of
                       None \<Rightarrow> Threw (w\<lparr>source := g4\<rparr>)
                     | Some a \<Rightarrow>
                         (let p = price a;
                              text = buildAnalysis trader a ty p;
                              (trade, st') = createTrade
                                 \<lparr>p_traderId = trader_id trader, p_asset = symbol a, p_type = ty,
                                  p_entryPrice = p, p_size = sz, p_analysis = text,
                                  p_timestamp = ts\<rparr> (tradesStore w)
                          in Returned (w\<lparr>tradesStore := st',
                                         tradersStore := setAnalysis (trader_id trader) text (tradersStore w),
                                         source := g4\<rparr>)))))"

text \<open>
  The body of the \<^verbatim>\<open>forEach\<close> of \<^verbatim>\<open>maybeCloseTrades\<close>, for one trade of the filtered
  copy. The hold draw is made only when neither bracket is hit (\<^verbatim>\<open>||\<close> short-circuits).
  \<^verbatim>\<open>closeTrade\<close> always sets \<^verbatim>\<open>pnl\<close>, so \<open>closed_pnl\<close> never meets \<open>None\<close> here.
\<close>

definition closed_pnl :: "trade \<Rightarrow> number" where
  "closed_pnl tr = (case pnl tr of Some x \<Rightarrow> x | None \<Rightarrow> 0)"

definition closeOne :: "trader \<Rightarrow> nat \<Rightarrow> trade \<Rightarrow> world \<Rightarrow> world" where
  "closeOne trader ts trade w =
     (let p = (case assetPriceMap (assets (marketStore w)) (asset trade) of
                 Some a \<Rightarrow> price a | None \<Rightarrow> entryPrice trade);
          hitTp = (if trade_type trade = Long then p \<ge> takeProfit trade else p \<le> takeProfit trade);
          hitSl = (if trade_type trade = Long then p \<le> stopLoss trade else p \<ge> stopLoss trade);
          holdProbability = (if riskTolerance trader = Baja then 2 / 10 else 35 / 100);
          (shouldClose, g') = (if hitTp \<or> hitSl then (True, source w)
                               else (let (r, g1) = random (source w) in (r > holdProbability, g1)))
      in if shouldClose
         then (case closeTrade (trade_id trade) p ts (tradesStore w) of
                 (None, st') \<Rightarrow> w\<lparr>source := g'\<rparr>
               | (Some closedTrade, st') \<Rightarrow>
                   (let reg1 = updateBalance (trader_id trader) (closed_pnl closedTrade) (Some ts) ts
                                 (tradersStore w);
                        reg2 = registerTrade (trader_id trader) closedTrade reg1;
                        text = trader_name trader @ '' cierra '' @ asset trade @
                               '' con P&L de $'' @ toFixedString (closed_pnl closedTrade) @ ''.'';
                        reg3 = setAnalysis (trader_id trader) text reg2
                    in w\<lparr>tradesStore := st', tradersStore := reg3, source := g'\<rparr>))
         else w\<lparr>source := g'\<rparr>)"

definition maybeCloseTrades :: "trader \<Rightarrow> nat \<Rightarrow> world \<Rightarrow> world" where
  "maybeCloseTrades trader ts w =
     fold (closeOne trader ts)
       (filter (\<lambda>trade. aiTrader trade = trader_id trader) (openPositions (tradesStore w))) w"

text \<open>
  The \<^verbatim>\<open>forEach\<close> over \<^verbatim>\<open>traderList\<close>. The loop reads only fields of a trader that no
  store action writes (id, name, risk tolerance, preferred assets, style), so it runs over
  the list as it is when the loop starts. An exception ends the loop.
\<close>

fun forEachTrader :: "nat \<Rightarrow> trader list \<Rightarrow> world \<Rightarrow> world outcome" where
  "forEachTrader ts [] w = Returned w"
| "forEachTrader ts (trader # rest) w =
     (case maybeOpenTrade trader ts (maybeCloseTrades trader ts w) of
        Threw w' \<Rightarrow> Threw w'
      | Returned w' \<Rightarrow> forEachTrader ts rest w')"

definition advanceMarket :: "nat \<Rightarrow> world \<Rightarrow> world" where
  "advanceMarket ts w =
     (let (snap, m', g') = generateNextTick ts (marketStore w) (source w)
      in w\<lparr>marketStore := m', source := g'\<rparr>)"

definition runSimulationTick :: "nat \<Rightarrow> world \<Rightarrow> world outcome" where
  "runSimulationTick ts w =
     (let (snap, m', g') = generateNextTick ts (marketStore w) (source w);
          w1 = w\<lparr>marketStore := m', source := g'\<rparr>
      in forEachTrader (fst snap) (traderList (tradersStore w1)) w1)"

text \<open>
  The states the running simulation can be in: the initial stores, then the first
  \<^verbatim>\<open>generateNextTick\<close> of \<^verbatim>\<open>onMounted\<close> and the ticks of the timer, each at its own
  \<^verbatim>\<open>Date.now()\<close>. A tick that raised leaves its state to the next one.
\<close>

inductive reachable :: "world \<Rightarrow> bool" where
  init: "unit_draws g \<Longrightarrow> reachable (world_init tm tt g)"
| market: "reachable w \<Longrightarrow> reachable (advanceMarket ts w)"
| step: "reachable w \<Longrightarrow> reachable (state_of (runSimulationTick ts w))"

text \<open>Repeated market ticks, 1500 ms apart, for the history bound.\<close>

fun run_ticks :: "nat \<Rightarrow> nat \<Rightarrow> market_state \<Rightarrow> rng \<Rightarrow> market_state \<times> rng" where
  "run_ticks 0 ts m g = (m, g)"
| "run_ticks (Suc n) ts m g =
     (let (snap, m', g') = generateNextTick ts m g in run_ticks n (ts + 1500) m' g')"

text \<open>
  Sequences of registry operations: \<^verbatim>\<open>updateBalance\<close> with its \<^verbatim>\<open>meta.time\<close>, and
  \<^verbatim>\<open>registerTrade\<close>.
\<close>

datatype registry_op = AdjustBalance string number nat | RecordTrade string trade

fun apply_op :: "registry_op \<Rightarrow> registry \<Rightarrow> registry" where
  "apply_op (AdjustBalance a delta t) reg = updateBalance a delta (Some t) t reg"
| "apply_op (RecordTrade a tr) reg = registerTrade a tr reg"

section \<open>Concrete states and invariants\<close>

text \<open>
  A ledger for concrete runs: the agent \<^verbatim>\<open>grok\<close> opens a long position of size 1 at 100.
\<close>

definition demo_payload :: payload where
  "demo_payload = \<lparr>p_traderId = ''grok'', p_asset = ''BTC'', p_type = Long, p_entryPrice = 100,
                    p_size = 1, p_analysis = ''demo'', p_timestamp = 1700\<rparr>"

definition demo_ledger :: trades_state where
  "demo_ledger = snd (createTrade demo_payload trades_init)"


text \<open>The relation between the counters and the win rate that every operation keeps.\<close>

definition stats_ok :: "trader_stats \<Rightarrow> bool" where
  "stats_ok s = (wins s \<le> totalTrades s \<and> 0 \<le> winRate s \<and> winRate s \<le> 100)"

text \<open>
  The number of open positions of an agent id, and what every step of the simulation keeps:
  draws in the unit interval, a market with assets, and at most 3 open positions per agent.
\<close>

definition openCount :: "string \<Rightarrow> world \<Rightarrow> nat" where
  "openCount a w = length (filter (\<lambda>trade. aiTrader trade = a) (openPositions (tradesStore w)))"

definition tick_inv :: "world \<Rightarrow> bool" where
  "tick_inv w = (unit_draws (source w) \<and> assets (marketStore w) \<noteq> [] \<and> (\<forall>a. openCount a w \<le> 3))"

text \<open>What every step keeps of the prices: asset prices and entry prices are rounded.\<close>

definition price_inv :: "world \<Rightarrow> bool" where
  "price_inv w =
     ((\<forall>a \<in> set (assets (marketStore w)). toFixed 2 (price a) = price a) \<and>
      (\<forall>t \<in> set (openPositions (tradesStore w)) \<union> set (history (tradesStore w)).
         toFixed 2 (entryPrice t) = entryPrice t))"

section \<open>Rounding\<close>

lemma toFixed_of_int: "toFixed f (of_int k / 10 ^ f) = of_int k / 10 ^ f"
proof -
  have a: "\<lfloor>(of_int k :: rat) + 1 / 2\<rfloor> = k" by linarith
  have b: "\<lfloor>(of_int (- k) :: rat) + 1 / 2\<rfloor> = - k" by linarith
  have neg: "(of_int k / 10 ^ f < (0::rat)) = (k < 0)"
    by (simp add: divide_less_0_iff)
  show ?thesis using a b
    by (simp add: toFixed_def neg)
qed

lemma toFixed_idem: "toFixed f (toFixed f x) = toFixed f x"
proof (cases "x < 0")
  case True
  then have "toFixed f x = of_int (- \<lfloor>- x * 10 ^ f + 1 / 2\<rfloor>) / 10 ^ f"
    by (simp add: toFixed_def)
  then show ?thesis by (metis toFixed_of_int)
next
  case False
  then have "toFixed f x = of_int \<lfloor>x * 10 ^ f + 1 / 2\<rfloor> / 10 ^ f"
    by (simp add: toFixed_def)
  then show ?thesis by (metis toFixed_of_int)
qed

lemma toFixed_nonneg: "0 \<le> x \<Longrightarrow> 0 \<le> toFixed f x"
  by (simp add: toFixed_def)

lemma toFixed_nonpos: "x < 0 \<Longrightarrow> toFixed f x \<le> 0"
proof -
  assume "x < 0"
  then have "0 \<le> - x * 10 ^ f" by (simp add: mult_nonpos_nonneg)
  then have "0 \<le> - x * 10 ^ f + 1 / 2" by linarith
  then have "0 \<le> \<lfloor>- x * 10 ^ f + 1 / 2\<rfloor>" by (simp only: zero_le_floor)
  with \<open>x < 0\<close> show ?thesis by (simp add: toFixed_def)
qed

lemma toFixed_mono: assumes "x \<le> y" shows "toFixed f x \<le> toFixed f y"
proof -
  have p: "(0::rat) < 10 ^ f" by simp
  consider "x < 0" "y < 0" | "x < 0" "0 \<le> y" | "0 \<le> x" "0 \<le> y"
    using assms by linarith
  then show ?thesis
  proof cases
    case 1
    have "- y * 10 ^ f + 1 / 2 \<le> - x * 10 ^ f + 1 / 2"
      using assms p by (simp add: mult_right_mono)
    then have "\<lfloor>- y * 10 ^ f + 1 / 2\<rfloor> \<le> \<lfloor>- x * 10 ^ f + 1 / 2\<rfloor>" by (rule floor_mono)
    then show ?thesis using 1 p by (simp add: toFixed_def divide_right_mono)
  next
    case 2
    then show ?thesis using toFixed_nonpos [of x f] toFixed_nonneg [of y f] by linarith
  next
    case 3
    have "x * 10 ^ f + 1 / 2 \<le> y * 10 ^ f + 1 / 2"
      using assms p by (simp add: mult_right_mono)
    then have "\<lfloor>x * 10 ^ f + 1 / 2\<rfloor> \<le> \<lfloor>y * 10 ^ f + 1 / 2\<rfloor>" by (rule floor_mono)
    then show ?thesis using 3 p by (simp add: toFixed_def divide_right_mono)
  qed
qed

lemma toFixed_lower: "x - 1 / (2 * 10 ^ f) \<le> toFixed f x"
proof -
  have p: "(0::rat) < 10 ^ f" by simp
  show ?thesis
  proof (cases "x < 0")
    case True
    have "of_int \<lfloor>- x * 10 ^ f + 1 / 2\<rfloor> \<le> - x * 10 ^ f + 1 / 2" by (rule of_int_floor_le)
    then have "of_int \<lfloor>- x * 10 ^ f + 1 / 2\<rfloor> / 10 ^ f \<le> (- x * 10 ^ f + 1 / 2) / 10 ^ f"
      using p by (simp add: divide_right_mono)
    also have "\<dots> = - x + 1 / (2 * 10 ^ f)" using p by (simp add: field_simps)
    finally show ?thesis using True by (simp add: toFixed_def)
  next
    case False
    have "x * 10 ^ f + 1 / 2 - 1 < of_int \<lfloor>x * 10 ^ f + 1 / 2\<rfloor>" by linarith
    then have "(x * 10 ^ f - 1 / 2) / 10 ^ f \<le> of_int \<lfloor>x * 10 ^ f + 1 / 2\<rfloor> / 10 ^ f"
      using p by (simp add: divide_right_mono)
    moreover have "(x * 10 ^ f - 1 / 2) / 10 ^ f = x - 1 / (2 * 10 ^ f)" using p by (simp add: field_simps)
    ultimately show ?thesis using False by (simp add: toFixed_def)
  qed
qed


text \<open>Floors of numeral fractions, for evaluating roundings.\<close>

lemma floor_rat_divide_numeral [simp]:
  "\<lfloor>numeral a / numeral b :: rat\<rfloor> = numeral a div numeral b"
  by (metis floor_divide_of_int_eq of_int_numeral)

lemma floor_rat_one_divide_numeral [simp]:
  "\<lfloor>1 / numeral b :: rat\<rfloor> = 1 div numeral b"
  by (metis floor_divide_of_int_eq of_int_1 of_int_numeral)

lemma floor_rat_minus_divide_numeral [simp]:
  "\<lfloor>- (numeral a / numeral b) :: rat\<rfloor> = - numeral a div numeral b"
  by (metis floor_divide_of_int_eq of_int_neg_numeral of_int_numeral minus_divide_left)

section \<open>Arrays\<close>

lemma slice_last_length: "length (slice_last n xs) = min n (length xs)"
  by (simp add: slice_last_def)


lemma findIndex_Some:
  "findIndex p xs = Some i \<Longrightarrow> i < length xs \<and> p (xs ! i) \<and> (\<forall>j<i. \<not> p (xs ! j))"
proof (induction xs arbitrary: i)
  case Nil
  then show ?case by simp
next
  case (Cons x xs)
  show ?case
  proof (cases "p x")
    case True
    with Cons.prems show ?thesis by simp
  next
    case False
    with Cons.prems obtain k where k: "findIndex p xs = Some k" "i = Suc k" by auto
    from Cons.IH [OF k(1)] False k(2) show ?thesis
      by (auto simp: nth_Cons split: nat.splits)
  qed
qed

lemma rev_slice_last: "rev (slice_last n xs) = take n (rev xs)"
  by (cases "n \<le> length xs") (simp_all add: slice_last_def rev_drop)


lemma splice1_set: "set (splice1 i xs) \<subseteq> set xs"
  by (auto simp: splice1_def dest: in_set_takeD in_set_dropD)



section \<open>The demonstration ledger\<close>

lemma demo_id: "trade_id (buildTrade demo_payload) = ''grok-1700''"
  by code_simp

lemma demo_open: "openPositions demo_ledger = [buildTrade demo_payload]"
  by (simp add: demo_ledger_def createTrade_def trades_init_def Let_def)

section \<open>Closing a position\<close>



section \<open>Not-found anomalies\<close>



section \<open>The analyses log\<close>

text \<open>
  C2, as the code has it. \<^verbatim>\<open>createTrade\<close> appends one note to the analyses, whose id is
  the id of the new trade; \<^verbatim>\<open>closeTrade\<close> leaves the analyses as they are, whether it
  closes a trade or not; \<^verbatim>\<open>lastAnalyses\<close> is the last 8 notes, newest first.
\<close>

theorem analyses_log:
  "analyses (snd (createTrade p st)) =
     analyses st @ [\<lparr>note_id = trade_id (fst (createTrade p st)), note_aiTrader = p_traderId p,
                     summary = p_analysis p, note_timestamp = p_timestamp p\<rparr>] \<and>
   analyses (snd (closeTrade tid exit ts st)) = analyses st \<and>
   lastAnalyses st = take 8 (rev (analyses st))"
  by (simp add: createTrade_def closeTrade_def Let_def lastAnalyses_def rev_slice_last
      split: option.split)

text \<open>
  A successful close appends no note: closing the one open trade of the demonstration ledger
  at 103 succeeds, and the log is as long as before.
\<close>

theorem close_appends_no_note:
  "fst (closeTrade ''grok-1700'' 103 1800 demo_ledger) =
     Some ((buildTrade demo_payload)\<lparr>status := Closed, exitPrice := Some 103, pnl := Some 3,
                                     closeTimestamp := Some 1800\<rparr>) \<and>
   length (analyses (snd (closeTrade ''grok-1700'' 103 1800 demo_ledger))) =
     length (analyses demo_ledger)"
  by (simp add: closeTrade_def demo_open demo_id closePnl_def toFixed_def splice1_def Let_def)
     (simp add: buildTrade_def demo_payload_def)

section \<open>What a close returns\<close>

lemma closeTrade_SomeD:
  assumes "closeTrade tid exit ts st = (Some c, st')"
  shows "\<exists>i < length (openPositions st).
           trade_id (openPositions st ! i) = tid \<and>
           c = (openPositions st ! i)\<lparr>status := Closed, exitPrice := Some (toFixed 2 exit),
                  pnl := Some (closePnl (openPositions st ! i) exit), closeTimestamp := Some ts\<rparr> \<and>
           st' = st\<lparr>openPositions := splice1 i (openPositions st),
                   history := take 200 (c # history st)\<rparr>"
proof (cases "findIndex (\<lambda>t. trade_id t = tid) (openPositions st)")
  case None
  with assms show ?thesis by (simp add: closeTrade_def)
next
  case (Some i)
  from findIndex_Some [OF Some] have "i < length (openPositions st)"
    "trade_id (openPositions st ! i) = tid" by auto
  moreover from assms Some have
    "c = (openPositions st ! i)\<lparr>status := Closed, exitPrice := Some (toFixed 2 exit),
                  pnl := Some (closePnl (openPositions st ! i) exit), closeTimestamp := Some ts\<rparr>"
    "st' = st\<lparr>openPositions := splice1 i (openPositions st),
                   history := take 200 (c # history st)\<rparr>"
    by (auto simp: closeTrade_def Let_def)
  ultimately show ?thesis by blast
qed

lemma demo_close:
  "closeTrade ''grok-1700'' 103 1800 demo_ledger =
     (Some ((buildTrade demo_payload)
        \<lparr>status := Closed, exitPrice := Some 103, pnl := Some 3, closeTimestamp := Some 1800\<rparr>),
      demo_ledger\<lparr>openPositions := [],
        history := [(buildTrade demo_payload)
          \<lparr>status := Closed, exitPrice := Some 103, pnl := Some 3, closeTimestamp := Some 1800\<rparr>]\<rparr>)"
proof -
  have e: "history demo_ledger = []"
    by (simp add: demo_ledger_def createTrade_def trades_init_def Let_def)
  have v: "trade_type (buildTrade demo_payload) = Long" "entryPrice (buildTrade demo_payload) = 100"
    "trade_size (buildTrade demo_payload) = 1"
    by (simp_all add: buildTrade_def demo_payload_def)
  show ?thesis
    by (simp add: closeTrade_def demo_open demo_id closePnl_def toFixed_def splice1_def Let_def e v)
qed


section \<open>Brackets\<close>




section \<open>The sign of the realized profit\<close>




section \<open>The price floor\<close>

lemma random_unit:
  assumes "unit_draws g"
  shows "0 \<le> fst (random g)" "fst (random g) < 1" "unit_draws (snd (random g))"
  using assms by (simp_all add: random_def unit_draws_def)

lemma evolvePrice_draws: "unit_draws g \<Longrightarrow> unit_draws (snd (evolvePrice p g))"
  by (simp add: evolvePrice_def random_def unit_draws_def Let_def split_beta)

lemma evolvePrice_floor: "max 5 (p * (1 / 2)) \<le> fst (evolvePrice p g)"
proof -
  obtain n g4 where "evolvePrice p g = (max n (max (p * (1 / 2)) 5), g4)"
    by (simp add: evolvePrice_def Let_def split_beta)
  then have "fst (evolvePrice p g) = max n (max (p * (1 / 2)) 5)" by simp
  then show ?thesis by (auto simp only: max_def split: if_splits)
qed

lemma evolvePrice_factor:
  assumes "unit_draws g" "0 \<le> p"
  shows "p * (93 / 100) \<le> fst (evolvePrice p g)"
proof -
  let ?r1 = "g 0" and ?r2 = "g (Suc 0)" and ?r3 = "g (Suc (Suc 0))" and ?r4 = "g (Suc (Suc (Suc 0)))"
  from assms(1) have r: "0 \<le> ?r1" "0 \<le> ?r2" "0 \<le> ?r4"
    by (simp_all add: unit_draws_def)
  have b: "- (1 / 100) \<le> (?r1 - 1 / 2) * (2 / 100)" "0 \<le> ?r2 * (15 / 1000)"
    "- (6 / 100) \<le> (?r4 - 1 / 2) * (12 / 100)"
    using r by simp_all
  define f where "f = 1 + (?r1 - 1 / 2) * (2 / 100) + ?r2 * (15 / 1000) +
     (if ?r3 < 5 / 100 then (?r4 - 1 / 2) * (12 / 100) else 0)"
  have "93 / 100 \<le> f"
  proof (cases "?r3 < 5 / 100")
    case True
    then have "f = 1 + (?r1 - 1 / 2) * (2 / 100) + ?r2 * (15 / 1000) + (?r4 - 1 / 2) * (12 / 100)"
      by (simp add: f_def)
    with b show ?thesis by linarith
  next
    case False
    then have "f = 1 + (?r1 - 1 / 2) * (2 / 100) + ?r2 * (15 / 1000)"
      by (simp add: f_def)
    with b show ?thesis by linarith
  qed
  then have "p * (93 / 100) \<le> p * f" using assms(2) by (rule mult_left_mono)
  moreover have "fst (evolvePrice p g) = max (p * f) (max (p * (1 / 2)) 5)"
    by (simp add: evolvePrice_def random_def Let_def split_beta f_def)
  ultimately show ?thesis by (auto simp only: max_def split: if_splits)
qed

lemma evolvePrice_rounded_floor:
  assumes "unit_draws g"
  shows "max 5 (p * (1 / 2)) \<le> toFixed 2 (fst (evolvePrice p g))"
proof -
  let ?v = "fst (evolvePrice p g)"
  have "5 \<le> ?v" using evolvePrice_floor [of p g] by simp
  then have "toFixed 2 5 \<le> toFixed 2 ?v" by (rule toFixed_mono)
  then have five: "5 \<le> toFixed 2 ?v" by (simp add: toFixed_def)
  show ?thesis
  proof (cases "p \<le> 10")
    case True
    with five show ?thesis by simp
  next
    case False
    then have "p * (93 / 100) \<le> ?v" using evolvePrice_factor [OF assms, of p] by simp
    moreover have "?v - 1 / (2 * 10 ^ 2) \<le> toFixed 2 ?v" by (rule toFixed_lower)
    ultimately have "p * (1 / 2) \<le> toFixed 2 ?v" using False by simp
    with five show ?thesis by simp
  qed
qed

lemma tickAsset_props:
  assumes "tickAsset ts a g = (a', g')"
  shows "price a' = toFixed 2 (fst (evolvePrice (price a) g))"
    and "g' = snd (evolvePrice (price a) g)"
    and "length (asset_history a') = min 120 (length (asset_history a)) + 1"
    and "symbol a' = symbol a"
  using assms by (auto simp: tickAsset_def Let_def split_beta slice_last_length)

lemma tickAssets_props:
  assumes "unit_draws g" "tickAssets ts as g = (as', g')"
  shows "unit_draws g' \<and> length as' = length as \<and>
         (\<forall>i < length as.
            max 5 (price (as ! i) * (1 / 2)) \<le> price (as' ! i) \<and>
            toFixed 2 (price (as' ! i)) = price (as' ! i) \<and>
            length (asset_history (as' ! i)) = min 120 (length (asset_history (as ! i))) + 1 \<and>
            symbol (as' ! i) = symbol (as ! i))"
  using assms
proof (induction as arbitrary: g as' g')
  case Nil
  then show ?case by simp
next
  case (Cons a as)
  obtain a1 g1 where t: "tickAsset ts a g = (a1, g1)" by (cases "tickAsset ts a g")
  obtain as2 g2 where r: "tickAssets ts as g1 = (as2, g2)" by (cases "tickAssets ts as g1")
  from Cons.prems(2) t r have as': "as' = a1 # as2" and g': "g' = g2" by simp_all
  from tickAsset_props [OF t] Cons.prems(1) have u1: "unit_draws g1"
    by (simp add: evolvePrice_draws)
  have h: "max 5 (price a * (1 / 2)) \<le> price a1" "toFixed 2 (price a1) = price a1"
    "length (asset_history a1) = min 120 (length (asset_history a)) + 1" "symbol a1 = symbol a"
    using tickAsset_props [OF t] evolvePrice_rounded_floor [OF Cons.prems(1), of "price a"]
    by (simp_all add: toFixed_idem)
  from Cons.IH [OF u1 r] have ih: "unit_draws g2" "length as2 = length as"
    "\<forall>i < length as.
            max 5 (price (as ! i) * (1 / 2)) \<le> price (as2 ! i) \<and>
            toFixed 2 (price (as2 ! i)) = price (as2 ! i) \<and>
            length (asset_history (as2 ! i)) = min 120 (length (asset_history (as ! i))) + 1 \<and>
            symbol (as2 ! i) = symbol (as ! i)"
    by simp_all
  show ?case
    unfolding as' g' using ih h by (auto simp: nth_Cons split: nat.splits)
qed

lemma generateNextTick_assets:
  assumes "generateNextTick ts m g = (snap, m', g')"
  shows "tickAssets ts (assets m) g = (assets m', g')" "tick m' = tick m + 1" "fst snap = ts"
  using assms by (auto simp: generateNextTick_def Let_def split_beta)

text \<open>
  C6. With every draw in \<open>[0, 1)\<close>, the price that \<^verbatim>\<open>generateNextTick\<close> stores for an
  asset, which is \<^verbatim>\<open>evolvePrice\<close> of the previous price rounded to two decimals, is at
  least \<open>max 5 (0.5 * previous price)\<close>: for one call of \<^verbatim>\<open>evolvePrice\<close> on any price \<open>p\<close>,
  and for every asset of a tick.
\<close>

theorem price_floor:
  assumes "unit_draws g" and "generateNextTick ts m g = (snap, m', g')"
  shows "max 5 (p * (1 / 2)) \<le> toFixed 2 (fst (evolvePrice p g)) \<and>
         length (assets m') = length (assets m) \<and>
         (\<forall>i < length (assets m). max 5 (price (assets m ! i) * (1 / 2)) \<le> price (assets m' ! i))"
  using evolvePrice_rounded_floor [OF assms(1), of p]
    tickAssets_props [OF assms(1) generateNextTick_assets(1) [OF assms(2)]]
  by simp

lemma half_draws: "unit_draws (\<lambda>n. 1 / 2)"
  by (simp add: unit_draws_def)

theorem price_floor_witness:
  "unit_draws (\<lambda>n. 1 / 2) \<and>
   price (assets (market_init 0) ! 0) = 31500 \<and>
   max 5 (31500 * (1 / 2)) \<le>
     price (assets (fst (snd (generateNextTick 1000 (market_init 0) (\<lambda>n. 1 / 2)))) ! 0)"
proof -
  obtain snap m' g' where t: "generateNextTick 1000 (market_init 0) (\<lambda>n. 1 / 2) = (snap, m', g')"
    by (cases "generateNextTick 1000 (market_init 0) (\<lambda>n. 1 / 2)")
  have p: "price (assets (market_init 0) ! 0) = 31500" "0 < length (assets (market_init 0))"
    by (simp_all add: market_init_def ASSETS_def)
  from price_floor [OF half_draws t, of 0]
  have "\<forall>i < length (assets (market_init 0)).
          max 5 (price (assets (market_init 0) ! i) * (1 / 2)) \<le> price (assets m' ! i)"
    by blast
  with p(2) have "max 5 (price (assets (market_init 0) ! 0) * (1 / 2)) \<le> price (assets m' ! 0)"
    by blast
  with p(1) show ?thesis
    by (simp add: t half_draws)
qed

section \<open>Agent statistics\<close>

lemma map_of_store:
  "map_of (store k v reg) a = (if a = k \<and> map_of reg k \<noteq> None then Some v else map_of reg a)"
  by (induction reg) auto

lemma store_keys: "map fst (store k v reg) = map fst reg"
  by (induction reg) auto

lemma updateBalance_trader_stats:
  "peakBalance (stats t) \<le> peakBalance (stats (updateBalance_trader delta tm t))"
  "maxDrawdown (stats t) \<le> maxDrawdown (stats (updateBalance_trader delta tm t))"
  "wins (stats (updateBalance_trader delta tm t)) = wins (stats t)"
  "totalTrades (stats (updateBalance_trader delta tm t)) = totalTrades (stats t)"
  "winRate (stats (updateBalance_trader delta tm t)) = winRate (stats t)"
  by (simp_all add: updateBalance_trader_def Let_def)

lemma updateBalance_trader_history:
  "length (balanceHistory (updateBalance_trader delta tm t)) \<le> 240"
  by (simp add: updateBalance_trader_def Let_def slice_last_length)

lemma toFixed1_percent:
  assumes "0 \<le> x" "x \<le> 100"
  shows "0 \<le> toFixed 1 x" "toFixed 1 x \<le> 100"
proof -
  show "0 \<le> toFixed 1 x" using assms(1) by (rule toFixed_nonneg)
  have "toFixed 1 x \<le> toFixed 1 100" using assms(2) by (rule toFixed_mono)
  then show "toFixed 1 x \<le> 100" by (simp add: toFixed_def)
qed

lemma registerTrade_stats_props:
  "peakBalance (registerTrade_stats tr s) = peakBalance s"
  "maxDrawdown (registerTrade_stats tr s) = maxDrawdown s"
  "totalTrades (registerTrade_stats tr s) = totalTrades s + 1"
  "wins (registerTrade_stats tr s) = wins s \<or> wins (registerTrade_stats tr s) = wins s + 1"
  "winRate (registerTrade_stats tr s) =
     toFixed 1 (of_nat (wins (registerTrade_stats tr s)) / of_nat (totalTrades s + 1) * 100)"
  by (simp_all add: registerTrade_stats_def Let_def)

lemma registerTrade_stats_ok:
  assumes "stats_ok s"
  shows "stats_ok (registerTrade_stats tr s)"
proof -
  let ?s = "registerTrade_stats tr s"
  from assms registerTrade_stats_props(3,4) [of tr s]
  have w: "wins ?s \<le> totalTrades s + 1" by (auto simp: stats_ok_def)
  define q :: rat where "q = of_nat (wins ?s) / of_nat (totalTrades s + 1)"
  have "(of_nat (wins ?s) :: rat) \<le> of_nat (totalTrades s + 1)" using w by (simp only: of_nat_le_iff)
  then have "q \<le> 1" unfolding q_def by (simp add: divide_le_eq_1)
  then have "q * 100 \<le> 1 * 100" by (rule mult_right_mono) simp
  then have hi: "q * 100 \<le> 100" by simp
  have "0 \<le> q" unfolding q_def by simp
  then have lo: "0 \<le> q * 100" by simp
  from toFixed1_percent [OF lo hi] w show ?thesis
    by (simp add: stats_ok_def registerTrade_stats_props(3,5) q_def)
qed

lemma apply_op_lookup:
  assumes "map_of reg a = Some t"
  shows "\<exists>t'. map_of (apply_op op reg) a = Some t' \<and>
           peakBalance (stats t) \<le> peakBalance (stats t') \<and>
           maxDrawdown (stats t) \<le> maxDrawdown (stats t') \<and>
           (stats_ok (stats t) \<longrightarrow> stats_ok (stats t'))"
proof (cases op)
  case (AdjustBalance k delta tm)
  show ?thesis
  proof (cases "map_of reg k")
    case None
    with assms AdjustBalance show ?thesis by (simp add: updateBalance_def)
  next
    case (Some u)
    show ?thesis
    proof (cases "a = k")
      case True
      with assms Some have "u = t" by simp
      with True Some AdjustBalance updateBalance_trader_stats [where t = t and delta = delta and tm = tm] show ?thesis
        by (simp add: updateBalance_def map_of_store stats_ok_def)
    next
      case False
      with assms Some AdjustBalance show ?thesis
        by (simp add: updateBalance_def map_of_store)
    qed
  qed
next
  case (RecordTrade k tr)
  show ?thesis
  proof (cases "map_of reg k")
    case None
    with assms RecordTrade show ?thesis by (simp add: registerTrade_def)
  next
    case (Some u)
    show ?thesis
    proof (cases "a = k")
      case True
      with assms Some have "u = t" by simp
      with True Some RecordTrade registerTrade_stats_props(1,2) [of tr "stats t"]
        registerTrade_stats_ok [of "stats t" tr] show ?thesis
        by (simp add: registerTrade_def map_of_store)
    next
      case False
      with assms Some RecordTrade show ?thesis
        by (simp add: registerTrade_def map_of_store)
    qed
  qed
qed

lemma apply_op_keys: "map fst (apply_op op reg) = map fst reg"
  by (cases op)
     (simp_all add: updateBalance_def registerTrade_def store_keys split: option.split)

lemma traders_init_ok: "map_of (traders_init now) a = Some t \<Longrightarrow> stats_ok (stats t)"
  by (auto simp: traders_init_def strategies_def trader_init_def stats_init_def stats_ok_def
      split: if_splits)

lemma fold_apply_op_ok:
  assumes "\<forall>a t. map_of reg a = Some t \<longrightarrow> stats_ok (stats t)"
  shows "\<forall>a t. map_of (fold apply_op ops reg) a = Some t \<longrightarrow> stats_ok (stats t)"
  using assms
proof (induction ops arbitrary: reg)
  case Nil
  then show ?case by simp
next
  case (Cons op ops)
  have "\<forall>a t. map_of (apply_op op reg) a = Some t \<longrightarrow> stats_ok (stats t)"
  proof (intro allI impI)
    fix a t'
    assume h: "map_of (apply_op op reg) a = Some t'"
    then have "a \<in> fst ` set (apply_op op reg)" by (auto dest!: map_of_SomeD intro: rev_image_eqI)
    then have "a \<in> fst ` set reg" using apply_op_keys [of op reg] by (metis set_map)
    then obtain t where t: "map_of reg a = Some t" by (metis map_of_eq_None_iff not_Some_eq)
    from apply_op_lookup [OF t, of op] h Cons.prems t show "stats_ok (stats t')" by auto
  qed
  from Cons.IH [OF this] show ?case by simp
qed

text \<open>
  C9. One \<^verbatim>\<open>updateBalance\<close> or \<^verbatim>\<open>registerTrade\<close>, on any registry and for any agent of
  it, leaves the agent in the registry with a peak balance and a maximal drawdown that are
  not below what they were. After any sequence of these operations on the initial registry,
  every agent has \<open>wins \<le> totalTrades\<close> and a win rate between 0 and 100.
\<close>

theorem stats_monotone_bounded:
  "(map_of reg a = Some t \<longrightarrow>
      (\<exists>t'. map_of (apply_op op reg) a = Some t' \<and>
            peakBalance (stats t) \<le> peakBalance (stats t') \<and>
            maxDrawdown (stats t) \<le> maxDrawdown (stats t'))) \<and>
   (map_of (fold apply_op ops (traders_init now)) a = Some u \<longrightarrow>
      wins (stats u) \<le> totalTrades (stats u) \<and> 0 \<le> winRate (stats u) \<and> winRate (stats u) \<le> 100)"
proof -
  have "\<forall>a t. map_of (traders_init now) a = Some t \<longrightarrow> stats_ok (stats t)"
    using traders_init_ok by blast
  from fold_apply_op_ok [OF this, of ops]
  have b: "map_of (fold apply_op ops (traders_init now)) a = Some u \<longrightarrow>
      wins (stats u) \<le> totalTrades (stats u) \<and> 0 \<le> winRate (stats u) \<and> winRate (stats u) \<le> 100"
    by (simp add: stats_ok_def)
  have m: "map_of reg a = Some t \<longrightarrow>
      (\<exists>t'. map_of (apply_op op reg) a = Some t' \<and>
            peakBalance (stats t) \<le> peakBalance (stats t') \<and>
            maxDrawdown (stats t) \<le> maxDrawdown (stats t'))"
    using apply_op_lookup [of reg a t op] by blast
  from m b show ?thesis by (rule conjI)
qed

lemma grok_init: "map_of (traders_init 0) ''grok'' = Some (trader_init 0 (''grok'', ''Grok'', Alta, [''BTC'', ''ETH''], Tecnico))"
  by (simp add: traders_init_def strategies_def)

lemma grok_loss:
  "map_option (\<lambda>t. (balance t, peakBalance (stats t), maxDrawdown (stats t)))
     (map_of (apply_op (AdjustBalance ''grok'' (- 3) 1800) (traders_init 0)) ''grok'') =
   Some (9997, 10000, 3)"
  by (simp add: updateBalance_def grok_init map_of_store updateBalance_trader_def Let_def
      trader_init_def stats_init_def BASE_BALANCE_def toFixed_def)

lemma grok_win:
  "map_option (\<lambda>t. (balance t, wins (stats t), totalTrades (stats t), winRate (stats t)))
     (map_of (fold apply_op
        [AdjustBalance ''grok'' 3 1800,
         RecordTrade ''grok'' ((buildTrade demo_payload)
           \<lparr>status := Closed, exitPrice := Some 103, pnl := Some 3, closeTimestamp := Some 1800\<rparr>)]
        (traders_init 0)) ''grok'') =
   Some (10003, 1, 1, 100)"
  by (simp add: updateBalance_def registerTrade_def grok_init map_of_store updateBalance_trader_def
      registerTrade_stats_def Let_def trader_init_def stats_init_def BASE_BALANCE_def toFixed_def)

theorem stats_monotone_bounded_witness:
  "map_of (traders_init 0) ''grok'' =
     Some (trader_init 0 (''grok'', ''Grok'', Alta, [''BTC'', ''ETH''], Tecnico)) \<and>
   map_option (\<lambda>t. (balance t, peakBalance (stats t), maxDrawdown (stats t)))
     (map_of (apply_op (AdjustBalance ''grok'' (- 3) 1800) (traders_init 0)) ''grok'') =
   Some (9997, 10000, 3) \<and>
   map_option (\<lambda>t. (balance t, wins (stats t), totalTrades (stats t), winRate (stats t)))
     (map_of (fold apply_op
        [AdjustBalance ''grok'' 3 1800,
         RecordTrade ''grok'' ((buildTrade demo_payload)
           \<lparr>status := Closed, exitPrice := Some 103, pnl := Some 3, closeTimestamp := Some 1800\<rparr>)]
        (traders_init 0)) ''grok'') =
   Some (10003, 1, 1, 100)"
  using stats_monotone_bounded [of "traders_init 0" "''grok''"
      "trader_init 0 (''grok'', ''Grok'', Alta, [''BTC'', ''ETH''], Tecnico)"
      "AdjustBalance ''grok'' (- 3) 1800"
      "[AdjustBalance ''grok'' 3 1800,
         RecordTrade ''grok'' ((buildTrade demo_payload)
           \<lparr>status := Closed, exitPrice := Some 103, pnl := Some 3, closeTimestamp := Some 1800\<rparr>)]" 0]
    grok_init grok_loss grok_win
  by blast

section \<open>Ring buffers\<close>

lemma tickAssets_history:
  "tickAssets ts as g = (as', g') \<Longrightarrow>
   length as' = length as \<and>
   (\<forall>i < length as. length (asset_history (as' ! i)) = min (length (asset_history (as ! i)) + 1) 121)"
proof (induction as arbitrary: g as' g')
  case Nil
  then show ?case by simp
next
  case (Cons a as)
  obtain a1 g1 where t: "tickAsset ts a g = (a1, g1)" by (cases "tickAsset ts a g")
  obtain as2 g2 where r: "tickAssets ts as g1 = (as2, g2)" by (cases "tickAssets ts as g1")
  from Cons.prems t r have as': "as' = a1 # as2" by simp
  have "length (asset_history a1) = min (length (asset_history a) + 1) 121"
    using tickAsset_props(3) [OF t] by simp
  with Cons.IH [OF r] show ?case
    by (auto simp: as' nth_Cons split: nat.splits)
qed

lemma run_ticks_history:
  "run_ticks n ts m g = (m', g') \<Longrightarrow>
   length (assets m') = length (assets m) \<and>
   (\<forall>i < length (assets m).
      length (asset_history (assets m' ! i)) =
        (if n = 0 then length (asset_history (assets m ! i))
         else min (length (asset_history (assets m ! i)) + n) 121))"
proof (induction n arbitrary: ts m g)
  case 0
  then show ?case by simp
next
  case (Suc n)
  obtain snap m1 g1 where t: "generateNextTick ts m g = (snap, m1, g1)"
    by (cases "generateNextTick ts m g") auto
  from tickAssets_history [OF generateNextTick_assets(1) [OF t]]
  have one: "length (assets m1) = length (assets m)"
    "\<forall>i < length (assets m).
       length (asset_history (assets m1 ! i)) = min (length (asset_history (assets m ! i)) + 1) 121"
    by simp_all
  from Suc.prems t have r: "run_ticks n (ts + 1500) m1 g1 = (m', g')" by simp
  from Suc.IH [OF r] one show ?case by auto
qed

lemma asset_history_bounded:
  "tickAssets ts as g = (as', g') \<Longrightarrow> \<forall>a \<in> set as'. length (asset_history a) \<le> 121"
  using tickAssets_history [of ts as g as' g'] by (auto simp: in_set_conv_nth)

lemma closeTrade_history_bounded:
  "length (history st) \<le> 200 \<Longrightarrow> length (history (snd (closeTrade tid exit ts st))) \<le> 200"
  by (simp add: closeTrade_def Let_def split: option.split)

lemma len4_map:
  assumes "length xs = 4" "\<forall>i < 4. f (xs ! i) = v"
  shows "map f xs = [v, v, v, v]"
proof -
  from assms(1) obtain a b c d where xs: "xs = [a, b, c, d]"
    by (auto simp: length_Suc_conv numeral_eq_Suc)
  from assms(2) have "f (xs ! 0) = v" "f (xs ! 1) = v" "f (xs ! 2) = v" "f (xs ! 3) = v"
    by simp_all
  then show ?thesis by (simp add: xs)
qed

lemma market_init_assets:
  "length (assets (market_init now)) = 4"
  "\<forall>a \<in> set (assets (market_init now)). length (asset_history a) = 1"
  by (simp_all add: market_init_def ASSETS_def)

text \<open>
  C1. The balance history stays within 240 entries and the closed-trade log within 200
  (\<open>updateBalance_trader_history\<close>, \<open>closeTrade_history_bounded\<close>): both push and then
  slice. \<^verbatim>\<open>generateNextTick\<close> slices the price history to its last 120 entries and then
  pushes, so the history it stores holds up to 121 entries (\<open>asset_history_bounded\<close>), and
  it does hold 121 for every asset after 120 ticks from the initial market.
\<close>

theorem asset_history_reaches_121:
  "map (\<lambda>a. length (asset_history a)) (assets (fst (run_ticks 120 1000 (market_init 0) (\<lambda>n. 1 / 2)))) =
     [121, 121, 121, 121]"
proof -
  obtain m' g' where r: "run_ticks 120 1000 (market_init 0) (\<lambda>n. 1 / 2) = (m', g')"
    by (cases "run_ticks 120 1000 (market_init 0) (\<lambda>n. 1 / 2)")
  have l: "length (assets (market_init 0)) = 4"
    "\<forall>i < 4. length (asset_history (assets (market_init 0) ! i)) = 1"
    using market_init_assets [of 0] by simp_all
  from run_ticks_history [OF r] l
  have "length (assets m') = 4" "\<forall>i < 4. length (asset_history (assets m' ! i)) = 121"
    by simp_all
  then have "map (\<lambda>a. length (asset_history a)) (assets m') = [121, 121, 121, 121]"
    by (rule len4_map)
  with r show ?thesis by simp
qed

section \<open>The cap on open positions\<close>

lemma filter_splice1_length: "length (filter P (splice1 i xs)) \<le> length (filter P xs)"
proof (cases "i < length xs")
  case True
  then have "xs = take i xs @ xs ! i # drop (Suc i) xs" by (rule id_take_nth_drop)
  then have "length (filter P xs) =
      length (filter P (take i xs)) + length (filter P [xs ! i]) + length (filter P (drop (Suc i) xs))"
    by (metis append_Cons append_Nil filter_append length_append add.assoc)
  then show ?thesis by (simp add: splice1_def)
next
  case False
  then show ?thesis by (simp add: splice1_def)
qed

lemma closeTrade_count:
  "length (filter P (openPositions (snd (closeTrade tid p ts st)))) \<le> length (filter P (openPositions st))"
  by (simp add: closeTrade_def Let_def filter_splice1_length split: option.split)

lemma closeOne_market: "marketStore (closeOne tr ts t w) = marketStore w"
  by (simp add: closeOne_def Let_def split_beta split: option.split)

lemma closeOne_source:
  "source (closeOne tr ts t w) = source w \<or> source (closeOne tr ts t w) = snd (random (source w))"
  by (simp add: closeOne_def Let_def split_beta split: option.split)

lemma closeOne_trades:
  "tradesStore (closeOne tr ts t w) = tradesStore w \<or>
   (\<exists>p. tradesStore (closeOne tr ts t w) = snd (closeTrade (trade_id t) p ts (tradesStore w)))"
  by (auto simp: closeOne_def Let_def split_beta split: option.split)

lemma closeOne_inv:
  assumes "tick_inv w"
  shows "tick_inv (closeOne tr ts t w)"
proof -
  have c: "openCount a (closeOne tr ts t w) \<le> openCount a w" for a
    using closeOne_trades [of tr ts t w] closeTrade_count [of "\<lambda>trade. aiTrader trade = a"]
    by (auto simp: openCount_def)
  have "openCount a (closeOne tr ts t w) \<le> 3" for a
    using c [of a] assms by (simp add: tick_inv_def) (meson le_trans)
  moreover have "unit_draws (source (closeOne tr ts t w))"
    using closeOne_source [of tr ts t w] assms random_unit(3) [of "source w"]
    by (auto simp: tick_inv_def)
  ultimately show ?thesis using assms by (simp add: tick_inv_def closeOne_market)
qed

lemma fold_closeOne_inv: "tick_inv w \<Longrightarrow> tick_inv (fold (closeOne tr ts) xs w)"
  by (induction xs arbitrary: w) (simp_all add: closeOne_inv)

lemma maybeCloseTrades_inv: "tick_inv w \<Longrightarrow> tick_inv (maybeCloseTrades tr ts w)"
  by (simp add: maybeCloseTrades_def fold_closeOne_inv)

lemma floor_index:
  assumes "0 \<le> r" "r < 1" "cs \<noteq> []"
  shows "0 \<le> \<lfloor>r * of_nat (length cs)\<rfloor> \<and> nat \<lfloor>r * of_nat (length cs)\<rfloor> < length cs"
proof -
  have ne: "0 < length cs" using assms(3) by simp
  have lo: "0 \<le> r * of_nat (length cs)" using assms(1) by simp
  have "r * of_nat (length cs) < 1 * of_nat (length cs)"
    using assms(2) ne by (intro mult_strict_right_mono) simp_all
  then have hi: "r * of_nat (length cs) < of_int (int (length cs))" by simp
  have i0: "0 \<le> \<lfloor>r * of_nat (length cs)\<rfloor>" using lo by simp
  have i1: "\<lfloor>r * of_nat (length cs)\<rfloor> < int (length cs)"
    using hi by (simp only: floor_less_iff)
  then have "nat \<lfloor>r * of_nat (length cs)\<rfloor> < length cs" using i0 by linarith
  with i0 show ?thesis by simp
qed

lemma selectAsset_Some:
  assumes "unit_draws g" "as \<noteq> []"
  shows "\<exists>a. fst (selectAsset tr as g) = Some a"
proof -
  let ?pool = "filter (\<lambda>a. List.member (preferredAssets tr) (symbol a)) as"
  let ?cs = "if length ?pool \<noteq> 0 then ?pool else as"
  from random_unit [OF assms(1)] have r: "0 \<le> fst (random g)" "fst (random g) < 1" by simp_all
  have "?cs \<noteq> []" using assms(2) by auto
  from floor_index [OF r this]
  have "fst (selectAsset tr as g) =
      Some (?cs ! nat \<lfloor>fst (random g) * of_nat (length ?cs)\<rfloor>)"
    unfolding selectAsset_def Let_def split_beta by (simp only: fst_conv if_True simp_thms)
  then show ?thesis by blast
qed

lemma selectAsset_source: "snd (selectAsset tr as g) = snd (random g)"
  by (simp add: selectAsset_def Let_def split_beta)


lemma maybeOpenTrade_cases:
  "(3 \<le> openCount (trader_id tr) w \<and> maybeOpenTrade tr ts w = Returned w) \<or>
   (openCount (trader_id tr) w < 3 \<and>
      maybeOpenTrade tr ts w = Returned (w\<lparr>source := snd (random (source w))\<rparr>)) \<or>
   (openCount (trader_id tr) w < 3 \<and>
      fst (selectAsset tr (assets (marketStore w)) (snd (random (source w)))) = None \<and>
      maybeOpenTrade tr ts w =
        Threw (w\<lparr>source := snd (random (snd (random (snd (random (snd (random (source w)))))))) \<rparr>)) \<or>
   (openCount (trader_id tr) w < 3 \<and>
      (\<exists>p reg. p_traderId p = trader_id tr \<and>
         maybeOpenTrade tr ts w =
           Returned (w\<lparr>tradesStore := snd (createTrade p (tradesStore w)), tradersStore := reg,
                       source := snd (random (snd (random (snd (random (snd (random (source w)))))))) \<rparr>)))"
proof (cases "3 \<le> openCount (trader_id tr) w")
  case True
  then show ?thesis by (simp add: maybeOpenTrade_def openCount_def)
next
  case False
  then have lt: "openCount (trader_id tr) w < 3" by simp
  show ?thesis
  proof (cases "fst (random (source w)) < 4 / 10")
    case no: False
    with False lt show ?thesis
      by (simp add: maybeOpenTrade_def openCount_def Let_def split_beta)
  next
    case yes: True
    show ?thesis
    proof (cases "fst (selectAsset tr (assets (marketStore w)) (snd (random (source w))))")
      case None
      with False lt yes show ?thesis
        by (simp add: maybeOpenTrade_def openCount_def Let_def split_beta selectAsset_source)
    next
      case (Some a)
      with False yes have "\<exists>p reg. p_traderId p = trader_id tr \<and>
         maybeOpenTrade tr ts w =
           Returned (w\<lparr>tradesStore := snd (createTrade p (tradesStore w)), tradersStore := reg,
                       source := snd (random (snd (random (snd (random (snd (random (source w)))))))) \<rparr>)"
        unfolding maybeOpenTrade_def openCount_def Let_def split_beta selectAsset_source
        by (simp only: if_False if_True option.case payload.simps) (metis payload.select_convs(1))
      with lt show ?thesis by blast
    qed
  qed
qed


lemma createTrade_openCount:
  "length (filter (\<lambda>trade. aiTrader trade = a) (openPositions (snd (createTrade p st)))) =
     length (filter (\<lambda>trade. aiTrader trade = a) (openPositions st)) +
     (if p_traderId p = a then 1 else 0)"
  by (simp add: createTrade_def buildTrade_def Let_def)

lemma maybeOpenTrade_one:
  "openCount a (state_of (maybeOpenTrade tr ts w)) \<le> openCount a w + 1"
  using maybeOpenTrade_cases [of tr w ts]
  by (auto simp: openCount_def createTrade_openCount)

lemma maybeOpenTrade_inv:
  assumes "tick_inv w"
  shows "\<exists>w'. maybeOpenTrade tr ts w = Returned w' \<and> tick_inv w'"
proof -
  from assms have u: "unit_draws (source w)" and ne: "assets (marketStore w) \<noteq> []"
    and c: "\<And>a. openCount a w \<le> 3"
    by (simp_all add: tick_inv_def)
  have u1: "unit_draws (snd (random (source w)))" using u by (rule random_unit(3))
  have u2: "unit_draws (snd (random (snd (random (source w)))))" using u1 by (rule random_unit(3))
  have u3: "unit_draws (snd (random (snd (random (snd (random (source w)))))))"
    using u2 by (rule random_unit(3))
  have u4: "unit_draws (snd (random (snd (random (snd (random (snd (random (source w)))))))))"
    using u3 by (rule random_unit(3))
  from selectAsset_Some [OF u1 ne, of tr]
  have sel: "fst (selectAsset tr (assets (marketStore w)) (snd (random (source w)))) \<noteq> None"
    by auto
  from maybeOpenTrade_cases [of tr w ts] sel
  consider "maybeOpenTrade tr ts w = Returned w"
    | "maybeOpenTrade tr ts w = Returned (w\<lparr>source := snd (random (source w))\<rparr>)"
    | p reg where "openCount (trader_id tr) w < 3" "p_traderId p = trader_id tr"
        "maybeOpenTrade tr ts w =
           Returned (w\<lparr>tradesStore := snd (createTrade p (tradesStore w)), tradersStore := reg,
                       source := snd (random (snd (random (snd (random (snd (random (source w)))))))) \<rparr>)"
    by blast
  then show ?thesis
  proof cases
    case 1
    with assms show ?thesis by simp
  next
    case 2
    moreover have "tick_inv (w\<lparr>source := snd (random (source w))\<rparr>)"
      using u1 ne c by (simp add: tick_inv_def openCount_def)
    ultimately show ?thesis by simp
  next
    case 3
    let ?w' = "w\<lparr>tradesStore := snd (createTrade p (tradesStore w)), tradersStore := reg,
                 source := snd (random (snd (random (snd (random (snd (random (source w)))))))) \<rparr>"
    have "openCount a ?w' \<le> 3" for a
      using c [of a] 3(1,2) by (auto simp: openCount_def createTrade_openCount)
    then have "tick_inv ?w'" using u4 ne by (simp add: tick_inv_def)
    with 3(3) show ?thesis by simp
  qed
qed

lemma forEachTrader_inv:
  "tick_inv w \<Longrightarrow> \<exists>w'. forEachTrader ts trs w = Returned w' \<and> tick_inv w'"
proof (induction trs arbitrary: w)
  case Nil
  then show ?case by simp
next
  case (Cons tr trs)
  from maybeOpenTrade_inv [OF maybeCloseTrades_inv [OF Cons.prems], of tr ts tr ts]
  obtain w1 where w1: "maybeOpenTrade tr ts (maybeCloseTrades tr ts w) = Returned w1" "tick_inv w1"
    by blast
  from Cons.IH [OF w1(2)] w1(1) show ?case by simp
qed

lemma advanceMarket_inv:
  assumes "tick_inv w"
  shows "tick_inv (advanceMarket ts w)"
proof -
  obtain snap m' g' where t: "generateNextTick ts (marketStore w) (source w) = (snap, m', g')"
    by (cases "generateNextTick ts (marketStore w) (source w)") auto
  from assms have u: "unit_draws (source w)" and ne: "assets (marketStore w) \<noteq> []"
    and c: "\<And>a. openCount a w \<le> 3"
    by (simp_all add: tick_inv_def)
  from tickAssets_props [OF u generateNextTick_assets(1) [OF t]] ne
  have "unit_draws g'" "assets m' \<noteq> []" by auto
  then show ?thesis using c t by (simp add: advanceMarket_def tick_inv_def openCount_def)
qed

lemma runSimulationTick_advance:
  "runSimulationTick ts w =
     forEachTrader ts (traderList (tradersStore (advanceMarket ts w))) (advanceMarket ts w)"
  by (simp add: runSimulationTick_def advanceMarket_def generateNextTick_def Let_def split_beta)

lemma runSimulationTick_inv:
  "tick_inv w \<Longrightarrow> \<exists>w'. runSimulationTick ts w = Returned w' \<and> tick_inv w'"
  unfolding runSimulationTick_advance by (intro forEachTrader_inv advanceMarket_inv)

lemma world_init_inv: "unit_draws g \<Longrightarrow> tick_inv (world_init tm tt g)"
  by (simp add: tick_inv_def world_init_def market_init_def ASSETS_def trades_init_def openCount_def)

lemma reachable_inv: "reachable w \<Longrightarrow> tick_inv w"
proof (induction rule: reachable.induct)
  case (init g tm tt)
  then show ?case by (rule world_init_inv)
next
  case (market w ts)
  then show ?case by (simp add: advanceMarket_inv)
next
  case (step w ts)
  from runSimulationTick_inv [OF step.IH, of ts] show ?case by auto
qed

text \<open>
  C10. In every state reachable from the initial stores by \<^verbatim>\<open>generateNextTick\<close> and
  \<^verbatim>\<open>runSimulationTick\<close>, with every draw in \<open>[0, 1)\<close>, each agent id has at most 3 open
  positions, and the next \<^verbatim>\<open>runSimulationTick\<close> returns without raising. In any state,
  \<^verbatim>\<open>maybeOpenTrade\<close> does nothing for a trader that holds 3 or more open positions, and it
  adds at most one open position for any agent id.
\<close>

theorem open_positions_capped:
  "(reachable w \<longrightarrow>
      length (filter (\<lambda>trade. aiTrader trade = a) (openPositions (tradesStore w))) \<le> 3 \<and>
      (\<exists>w'. runSimulationTick ts w = Returned w')) \<and>
   (3 \<le> length (filter (\<lambda>trade. aiTrader trade = trader_id tr) (openPositions (tradesStore v))) \<longrightarrow>
      maybeOpenTrade tr ts v = Returned v) \<and>
   length (filter (\<lambda>trade. aiTrader trade = a)
     (openPositions (tradesStore (state_of (maybeOpenTrade tr ts v))))) \<le>
   length (filter (\<lambda>trade. aiTrader trade = a) (openPositions (tradesStore v))) + 1"
proof -
  have r: "length (filter (\<lambda>trade. aiTrader trade = a) (openPositions (tradesStore w))) \<le> 3 \<and>
      (\<exists>w'. runSimulationTick ts w = Returned w')" if "reachable w"
  proof -
    from reachable_inv [OF that] have i: "tick_inv w" .
    then have "openCount a w \<le> 3" by (simp add: tick_inv_def)
    moreover from runSimulationTick_inv [OF i, of ts] have "\<exists>w'. runSimulationTick ts w = Returned w'"
      by blast
    ultimately show ?thesis by (simp add: openCount_def)
  qed
  have s: "3 \<le> length (filter (\<lambda>trade. aiTrader trade = trader_id tr) (openPositions (tradesStore v))) \<longrightarrow>
      maybeOpenTrade tr ts v = Returned v"
    by (simp add: maybeOpenTrade_def)
  from r s maybeOpenTrade_one [of a tr ts v] show ?thesis
    by (simp add: openCount_def)
qed

lemma tenth_draws: "unit_draws (\<lambda>n. 1 / 10)"
  by (simp add: unit_draws_def)

lemma demo_trader: "aiTrader (buildTrade demo_payload) = ''grok''"
  by (simp add: buildTrade_def demo_payload_def)

theorem open_positions_capped_witness:
  "reachable (state_of (runSimulationTick 1500 (advanceMarket 1000 (world_init 0 0 (\<lambda>n. 1 / 10))))) \<and>
   length (filter (\<lambda>trade. aiTrader trade = ''grok'')
     (openPositions (tradesStore
        (state_of (runSimulationTick 1500 (advanceMarket 1000 (world_init 0 0 (\<lambda>n. 1 / 10)))))))) \<le> 3 \<and>
   3 \<le> length (filter (\<lambda>trade. aiTrader trade = ''grok'')
     (openPositions (tradesStore
        ((world_init 0 0 (\<lambda>n. 1 / 10))
           \<lparr>tradesStore := trades_init
              \<lparr>openPositions := replicate 3 (buildTrade demo_payload)\<rparr>\<rparr>)))) \<and>
   maybeOpenTrade (trader_init 0 (''grok'', ''Grok'', Alta, [''BTC'', ''ETH''], Tecnico)) 3000
     ((world_init 0 0 (\<lambda>n. 1 / 10))
        \<lparr>tradesStore := trades_init\<lparr>openPositions := replicate 3 (buildTrade demo_payload)\<rparr>\<rparr>) =
   Returned ((world_init 0 0 (\<lambda>n. 1 / 10))
        \<lparr>tradesStore := trades_init\<lparr>openPositions := replicate 3 (buildTrade demo_payload)\<rparr>\<rparr>)"
proof -
  let ?w = "state_of (runSimulationTick 1500 (advanceMarket 1000 (world_init 0 0 (\<lambda>n. 1 / 10))))"
  let ?v = "(world_init 0 0 (\<lambda>n. 1 / 10))
        \<lparr>tradesStore := trades_init\<lparr>openPositions := replicate 3 (buildTrade demo_payload)\<rparr>\<rparr>"
  let ?tr = "trader_init 0 (''grok'', ''Grok'', Alta, [''BTC'', ''ETH''], Tecnico)"
  have r: "reachable ?w"
    by (intro reachable.step reachable.market reachable.init tenth_draws)
  have i: "trader_id ?tr = ''grok''" by (simp add: trader_init_def)
  have c: "3 \<le> length (filter (\<lambda>trade. aiTrader trade = ''grok'') (openPositions (tradesStore ?v)))"
    by (simp add: demo_trader)
  from open_positions_capped [of ?w "''grok''" 3000 ?tr ?v] r c i show ?thesis
    by simp
qed

section \<open>Where values are rounded\<close>

lemma tickAssets_rounded:
  "tickAssets ts as g = (as', g') \<Longrightarrow> \<forall>a \<in> set as'. toFixed 2 (price a) = price a"
proof (induction as arbitrary: g as' g')
  case Nil
  then show ?case by simp
next
  case (Cons a as)
  obtain a1 g1 where t: "tickAsset ts a g = (a1, g1)" by (cases "tickAsset ts a g")
  obtain as2 g2 where r: "tickAssets ts as g1 = (as2, g2)" by (cases "tickAssets ts as g1")
  from Cons.prems t r have as': "as' = a1 # as2" by simp
  have "toFixed 2 (price a1) = price a1"
    using t by (auto simp: tickAsset_def Let_def split_beta toFixed_idem)
  with Cons.IH [OF r] show ?case by (simp add: as')
qed

lemma generateNextTick_fst_snd:
  "tickAssets ts (assets m) g = (assets (fst (snd (generateNextTick ts m g))), snd (snd (generateNextTick ts m g)))"
  by (simp add: generateNextTick_def Let_def split_beta)

lemma closeTrade_entries:
  assumes "\<forall>t \<in> set (openPositions st) \<union> set (history st). P (entryPrice t)"
  shows "\<forall>t \<in> set (openPositions (snd (closeTrade tid p ts st))) \<union>
              set (history (snd (closeTrade tid p ts st))). P (entryPrice t)"
proof (cases "fst (closeTrade tid p ts st)")
  case None
  then have "snd (closeTrade tid p ts st) = st"
    by (simp add: closeTrade_def Let_def split: option.splits)
  with assms show ?thesis by simp
next
  case (Some c)
  then have h: "closeTrade tid p ts st = (Some c, snd (closeTrade tid p ts st))"
    by (metis prod.collapse)
  from closeTrade_SomeD [OF h] obtain i where i: "i < length (openPositions st)"
    and c: "c = (openPositions st ! i)\<lparr>status := Closed, exitPrice := Some (toFixed 2 p),
                  pnl := Some (closePnl (openPositions st ! i) p), closeTimestamp := Some ts\<rparr>"
    and st': "snd (closeTrade tid p ts st) = st\<lparr>openPositions := splice1 i (openPositions st),
                   history := take 200 (c # history st)\<rparr>"
    by blast
  have "openPositions st ! i \<in> set (openPositions st)" using i by simp
  with assms have pc: "P (entryPrice c)" by (simp add: c)
  have o: "set (splice1 i (openPositions st)) \<subseteq> set (openPositions st)" by (rule splice1_set)
  have "set (take 200 (c # history st)) \<subseteq> set (c # history st)" by (rule set_take_subset)
  then have hsub: "set (take 200 (c # history st)) \<subseteq> insert c (set (history st))" by simp
  show ?thesis
    unfolding st' using assms pc o hsub by auto
qed

lemma closeOne_price_inv:
  assumes "price_inv w"
  shows "price_inv (closeOne tr ts t w)"
proof -
  from assms have e: "\<forall>x \<in> set (openPositions (tradesStore w)) \<union> set (history (tradesStore w)).
      toFixed 2 (entryPrice x) = entryPrice x"
    by (simp add: price_inv_def)
  from closeOne_trades [of tr ts t w]
  have "\<forall>x \<in> set (openPositions (tradesStore (closeOne tr ts t w))) \<union>
              set (history (tradesStore (closeOne tr ts t w))).
      toFixed 2 (entryPrice x) = entryPrice x"
  proof
    assume "tradesStore (closeOne tr ts t w) = tradesStore w"
    with e show ?thesis by simp
  next
    assume "\<exists>p. tradesStore (closeOne tr ts t w) = snd (closeTrade (trade_id t) p ts (tradesStore w))"
    then obtain p where "tradesStore (closeOne tr ts t w) = snd (closeTrade (trade_id t) p ts (tradesStore w))"
      by blast
    with closeTrade_entries [OF e, of "trade_id t" p ts] show ?thesis by simp
  qed
  with assms show ?thesis by (simp add: price_inv_def closeOne_market)
qed

lemma fold_closeOne_price_inv: "price_inv w \<Longrightarrow> price_inv (fold (closeOne tr ts) xs w)"
  by (induction xs arbitrary: w) (simp_all add: closeOne_price_inv)

lemma selectAsset_member: "fst (selectAsset tr as g) = Some a \<Longrightarrow> a \<in> set as"
proof -
  assume h: "fst (selectAsset tr as g) = Some a"
  let ?pool = "filter (\<lambda>a. List.member (preferredAssets tr) (symbol a)) as"
  let ?cs = "if length ?pool \<noteq> 0 then ?pool else as"
  from h have "a \<in> set ?cs"
    unfolding selectAsset_def Let_def split_beta fst_conv
    by (metis nth_mem option.distinct(1) option.inject)
  then show ?thesis by (auto split: if_splits)
qed

lemma maybeOpenTrade_entry:
  "tradesStore (state_of (maybeOpenTrade tr ts w)) = tradesStore w \<or>
   (\<exists>a ty sz msg. fst (selectAsset tr (assets (marketStore w)) (snd (random (source w)))) = Some a \<and>
      tradesStore (state_of (maybeOpenTrade tr ts w)) =
        snd (createTrade \<lparr>p_traderId = trader_id tr, p_asset = symbol a, p_type = ty,
                           p_entryPrice = price a, p_size = sz, p_analysis = msg,
                           p_timestamp = ts\<rparr> (tradesStore w)))"
proof (cases "fst (selectAsset tr (assets (marketStore w)) (snd (random (source w))))")
  case None
  then show ?thesis
    by (simp add: maybeOpenTrade_def Let_def split_beta selectAsset_source)
next
  case (Some a)
  show ?thesis
  proof (cases "3 \<le> length (filter (\<lambda>trade. aiTrader trade = trader_id tr) (openPositions (tradesStore w)))
       \<or> \<not> fst (random (source w)) < 4 / 10")
    case True
    then show ?thesis by (auto simp: maybeOpenTrade_def Let_def split_beta)
  next
    case False
    then have lt: "\<not> 3 \<le> length (filter (\<lambda>trade. aiTrader trade = trader_id tr) (openPositions (tradesStore w)))"
      and yes: "fst (random (source w)) < 4 / 10" by simp_all
    have "\<exists>ty sz msg. tradesStore (state_of (maybeOpenTrade tr ts w)) =
        snd (createTrade \<lparr>p_traderId = trader_id tr, p_asset = symbol a, p_type = ty,
                           p_entryPrice = price a, p_size = sz, p_analysis = msg,
                           p_timestamp = ts\<rparr> (tradesStore w))"
      unfolding maybeOpenTrade_def Let_def split_beta selectAsset_source
      by (simp only: lt yes Some if_False if_True option.case simp_thms state_of.simps)
         (rule exI, rule exI, rule exI, simp)
    with Some show ?thesis by blast
  qed
qed

lemma maybeOpenTrade_market: "marketStore (state_of (maybeOpenTrade tr ts w)) = marketStore w"
  by (simp add: maybeOpenTrade_def Let_def split_beta split: option.split)

lemma createTrade_entries:
  "set (openPositions (snd (createTrade p st))) = insert (buildTrade p) (set (openPositions st))"
  "history (snd (createTrade p st)) = history st"
  "entryPrice (buildTrade p) = p_entryPrice p"
  by (simp_all add: createTrade_def buildTrade_def Let_def)

lemma maybeOpenTrade_price_inv:
  assumes "price_inv w"
  shows "price_inv (state_of (maybeOpenTrade tr ts w))"
proof -
  from maybeOpenTrade_entry [of tr ts w]
  consider "tradesStore (state_of (maybeOpenTrade tr ts w)) = tradesStore w"
    | a ty sz msg where "fst (selectAsset tr (assets (marketStore w)) (snd (random (source w)))) = Some a"
        "tradesStore (state_of (maybeOpenTrade tr ts w)) =
           snd (createTrade \<lparr>p_traderId = trader_id tr, p_asset = symbol a, p_type = ty,
                           p_entryPrice = price a, p_size = sz, p_analysis = msg,
                           p_timestamp = ts\<rparr> (tradesStore w))"
    by blast
  then show ?thesis
  proof cases
    case 1
    with assms show ?thesis by (simp add: price_inv_def maybeOpenTrade_market)
  next
    case 2
    from selectAsset_member [OF 2(1)] assms have "toFixed 2 (price a) = price a"
      by (simp add: price_inv_def)
    with 2(2) assms show ?thesis
      by (simp add: price_inv_def maybeOpenTrade_market createTrade_entries)
  qed
qed

lemma forEachTrader_price_inv:
  "price_inv w \<Longrightarrow> price_inv (state_of (forEachTrader ts trs w))"
proof (induction trs arbitrary: w)
  case Nil
  then show ?case by simp
next
  case (Cons tr trs)
  let ?o = "maybeOpenTrade tr ts (maybeCloseTrades tr ts w)"
  have i: "price_inv (state_of ?o)"
    using Cons.prems
    by (intro maybeOpenTrade_price_inv) (simp add: maybeCloseTrades_def fold_closeOne_price_inv)
  show ?case
  proof (cases ?o)
    case (Returned w1)
    with i Cons.IH [of w1] show ?thesis by simp
  next
    case (Threw w1)
    with i show ?thesis by simp
  qed
qed

lemma advanceMarket_price_inv:
  assumes "price_inv w"
  shows "price_inv (advanceMarket ts w)"
proof -
  have "\<forall>a \<in> set (assets (fst (snd (generateNextTick ts (marketStore w) (source w))))).
          toFixed 2 (price a) = price a"
    using generateNextTick_fst_snd [of ts "marketStore w" "source w"] by (rule tickAssets_rounded)
  with assms show ?thesis
    by (simp add: advanceMarket_def price_inv_def split_beta)
qed

lemma reachable_price_inv: "reachable w \<Longrightarrow> price_inv w"
proof (induction rule: reachable.induct)
  case (init g tm tt)
  show ?case
    by (simp add: price_inv_def world_init_def market_init_def ASSETS_def trades_init_def
        toFixed_def)
next
  case (market w ts)
  from market.IH show ?case by (rule advanceMarket_price_inv)
next
  case (step w ts)
  from step.IH show ?case
    unfolding runSimulationTick_advance
    by (intro forEachTrader_price_inv advanceMarket_price_inv)
qed

text \<open>
  C7, as the code has it. Both brackets of a new trade, and the exit price and the profit of
  a closed trade, are equal to their own rounding to two decimals. \<^verbatim>\<open>createTrade\<close> stores
  the entry price as the caller passes it. The prices that \<^verbatim>\<open>generateNextTick\<close> stores are
  rounded, and \<^verbatim>\<open>maybeOpenTrade\<close> passes such a price: in every reachable state of the
  simulation the entry price of every trade, open or closed, is equal to its own rounding.
\<close>

theorem rounding_points:
  "toFixed 2 (stopLoss (fst (createTrade p st))) = stopLoss (fst (createTrade p st)) \<and>
   toFixed 2 (takeProfit (fst (createTrade p st))) = takeProfit (fst (createTrade p st)) \<and>
   entryPrice (fst (createTrade p st)) = p_entryPrice p \<and>
   (closeTrade tid exit ts st = (Some c, st') \<longrightarrow>
      (\<exists>e x. exitPrice c = Some e \<and> pnl c = Some x \<and> toFixed 2 e = e \<and> toFixed 2 x = x)) \<and>
   (\<forall>a \<in> set (assets (fst (snd (generateNextTick now m g)))). toFixed 2 (price a) = price a) \<and>
   (reachable w \<longrightarrow>
      (\<forall>t \<in> set (openPositions (tradesStore w)) \<union> set (history (tradesStore w)).
         toFixed 2 (entryPrice t) = entryPrice t))"
proof -
  have create: "toFixed 2 (stopLoss (fst (createTrade p st))) = stopLoss (fst (createTrade p st)) \<and>
   toFixed 2 (takeProfit (fst (createTrade p st))) = takeProfit (fst (createTrade p st)) \<and>
   entryPrice (fst (createTrade p st)) = p_entryPrice p"
    by (simp add: createTrade_def buildTrade_def Let_def toFixed_idem)
  have close: "\<exists>e x. exitPrice c = Some e \<and> pnl c = Some x \<and> toFixed 2 e = e \<and> toFixed 2 x = x"
    if h: "closeTrade tid exit ts st = (Some c, st')"
  proof -
    from closeTrade_SomeD [OF h] obtain t where
      c: "c = t\<lparr>status := Closed, exitPrice := Some (toFixed 2 exit),
                pnl := Some (closePnl t exit), closeTimestamp := Some ts\<rparr>"
      by blast
    have "toFixed 2 (closePnl t exit) = closePnl t exit"
      by (simp add: closePnl_def toFixed_idem)
    then show ?thesis by (simp add: c toFixed_idem)
  qed
  have gen: "\<forall>a \<in> set (assets (fst (snd (generateNextTick now m g)))). toFixed 2 (price a) = price a"
    using generateNextTick_fst_snd [of now m g] by (rule tickAssets_rounded)
  have run: "reachable w \<longrightarrow>
      (\<forall>t \<in> set (openPositions (tradesStore w)) \<union> set (history (tradesStore w)).
         toFixed 2 (entryPrice t) = entryPrice t)"
    using reachable_price_inv [of w] by (simp add: price_inv_def)
  from create close gen run show ?thesis by blast
qed

theorem rounding_points_witness:
  "closeTrade ''grok-1700'' 103 1800 demo_ledger =
     (Some ((buildTrade demo_payload)
        \<lparr>status := Closed, exitPrice := Some 103, pnl := Some 3, closeTimestamp := Some 1800\<rparr>),
      demo_ledger\<lparr>openPositions := [],
        history := [(buildTrade demo_payload)
          \<lparr>status := Closed, exitPrice := Some 103, pnl := Some 3, closeTimestamp := Some 1800\<rparr>]\<rparr>) \<and>
   toFixed 2 103 = 103 \<and> toFixed 2 3 = 3 \<and>
   entryPrice (fst (createTrade demo_payload demo_ledger)) = 100 \<and>
   reachable (state_of (runSimulationTick 1500 (advanceMarket 1000 (world_init 0 0 (\<lambda>n. 1 / 10))))) \<and>
   list_all (\<lambda>t. toFixed 2 (entryPrice t) = entryPrice t)
     (openPositions (tradesStore
        (state_of (runSimulationTick 1500 (advanceMarket 1000 (world_init 0 0 (\<lambda>n. 1 / 10)))))))"
proof -
  let ?w = "state_of (runSimulationTick 1500 (advanceMarket 1000 (world_init 0 0 (\<lambda>n. 1 / 10))))"
  have r: "reachable ?w"
    by (intro reachable.step reachable.market reachable.init tenth_draws)
  from rounding_points [of demo_payload demo_ledger "''grok-1700''" 103 1800
      "(buildTrade demo_payload)
        \<lparr>status := Closed, exitPrice := Some 103, pnl := Some 3, closeTimestamp := Some 1800\<rparr>"
      "demo_ledger\<lparr>openPositions := [],
        history := [(buildTrade demo_payload)
          \<lparr>status := Closed, exitPrice := Some 103, pnl := Some 3, closeTimestamp := Some 1800\<rparr>]\<rparr>"
      1000 "market_init 0" "\<lambda>n. 1 / 2" ?w]
    demo_close r
  show ?thesis
    by (simp add: demo_payload_def list_all_iff)
qed

text \<open>
  The entry price is not rounded by \<^verbatim>\<open>createTrade\<close>: passed 100.123, it stores 100.123,
  whose rounding is 100.12.
\<close>

theorem entry_price_stored_unrounded:
  "entryPrice (fst (createTrade (demo_payload\<lparr>p_entryPrice := 100123 / 1000\<rparr>) trades_init)) =
     100123 / 1000 \<and>
   toFixed 2 (100123 / 1000) = 10012 / 100"
  by (simp add: createTrade_def buildTrade_def Let_def toFixed_def)

end
